theory Spec2Isabelle
  imports Complex_Main
begin

section \<open>Content bridge: data model\<close>

text \<open>
  The repository is a set of React components that run inside an iframe:
  \<^verbatim>\<open>content-bridge.tsx\<close> (messages to and from the parent window, height reporting),
  \<^verbatim>\<open>selection-manager.tsx\<close> (hover, click and Escape while select mode is on),
  \<^verbatim>\<open>context-menu-manager.tsx\<close> (the right-click menu) and
  \<^verbatim>\<open>analyzer-overlay.tsx\<close> (the timed scanning animation).

  \<open>SelectedElement\<close> is the interface of \<^verbatim>\<open>types/element.ts\<close>: six fields, all strings,
  \<open>textContent\<close> being \<^verbatim>\<open>string | null\<close>. The field \<^verbatim>\<open>id\<close> is called \<open>elementId\<close>
  here. A live DOM element (the code casts every element to \<^verbatim>\<open>HTMLElement\<close>) has the
  same six properties and an identity: \<open>node\<close> is
  the handle that tells two elements with equal properties apart. It also has a
  namespace and a local name: \<open>inHtmlNamespace\<close> says whether the namespace is the HTML
  one (an SVG or MathML element is in another), and \<open>localName\<close> is the name a type
  selector is compared with. For an element the HTML parser makes in the HTML
  namespace the local name is in lower case and \<^verbatim>\<open>tagName\<close> is the same name in upper
  case (\<^verbatim>\<open>h1\<close> and \<^verbatim>\<open>H1\<close>); for an element of another namespace \<^verbatim>\<open>tagName\<close> is the
  local name as it is (\<^verbatim>\<open>foreignObject\<close>). The document is an HTML document, and it is
  the list of its elements in document order, the order of \<^verbatim>\<open>querySelectorAll\<close>.
\<close>

record SelectedElement =
  tagName :: string
  className :: string
  elementId :: string
  textContent :: "string option"
  innerHTML :: string
  outerHTML :: string

record HTMLElement = SelectedElement +
  node :: nat
  localName :: string
  inHtmlNamespace :: bool

type_synonym document = "HTMLElement list"

text \<open>
  The object literal \<^verbatim>\<open>elementData\<close> that \<^verbatim>\<open>handleClick\<close> builds from the element under
  the pointer (selection-manager.tsx, lines 127 to 134; \<^verbatim>\<open>handleMenuAction\<close> builds the
  same literal): a copy of the six properties, without the node.
\<close>

definition elementData :: "HTMLElement \<Rightarrow> SelectedElement" where
  "elementData element =
     \<lparr>tagName = tagName element,
      className = className element,
      elementId = elementId element,
      textContent = textContent element,
      innerHTML = innerHTML element,
      outerHTML = outerHTML element\<rparr>"

subsection \<open>The platform functions the lookup uses\<close>

text \<open>
  \<^verbatim>\<open>String.prototype.toLowerCase\<close> on ASCII: the capital letters are replaced, every
  other character is kept.
\<close>

definition lowerChar :: "char \<Rightarrow> char" where
  "lowerChar c =
     (case map_of (zip ''ABCDEFGHIJKLMNOPQRSTUVWXYZ'' ''abcdefghijklmnopqrstuvwxyz'') c of
        None \<Rightarrow> c
      | Some l \<Rightarrow> l)"

definition toLowerCase :: "string \<Rightarrow> string" where
  "toLowerCase s = map lowerChar s"

text \<open>
  What a call of a DOM function does: it returns, or it throws a \<^verbatim>\<open>SyntaxError\<close>, or
  the call is outside what is modelled here.
\<close>

datatype 'a outcome = Returns 'a | ThrowsSyntaxError | NotModelled

text \<open>
  A tag name as a CSS identifier, in ASCII: a letter or an underscore, then letters,
  digits, hyphens and underscores. A string of this form is a type selector.
\<close>

definition isNameStart :: "char \<Rightarrow> bool" where
  "isNameStart c \<longleftrightarrow>
     c \<in> set ''abcdefghijklmnopqrstuvwxyzABCDEFGHIJKLMNOPQRSTUVWXYZ_''"

definition isNameChar :: "char \<Rightarrow> bool" where
  "isNameChar c \<longleftrightarrow> isNameStart c \<or> c \<in> set ''0123456789-''"

fun isIdentifier :: "string \<Rightarrow> bool" where
  "isIdentifier [] = False"
| "isIdentifier (c # cs) = (isNameStart c \<and> list_all isNameChar cs)"

text \<open>
  Whether a type selector selects an element, in an HTML document: for an element of
  the HTML namespace the selector is compared in lower case with the local name; for
  any other element the selector is compared with the local name as it is written.
\<close>

definition selects :: "string \<Rightarrow> HTMLElement \<Rightarrow> bool" where
  "selects selector el =
     (if inHtmlNamespace el
      then localName el = toLowerCase selector
      else localName el = selector)"

text \<open>
  \<^verbatim>\<open>document.querySelectorAll(selector)\<close>. The browser parses the string as a CSS
  selector. The empty string is no selector: the call throws. \<^verbatim>\<open>*\<close> selects every
  element. A type selector selects the elements of that tag, in document order. Any
  other string is some other selector (\<^verbatim>\<open>li.item\<close> selects by class) or none at all
  (\<^verbatim>\<open>o:p\<close> names a pseudo-class that does not exist, and the call throws): which of the
  two, and what is selected, is not modelled.
\<close>

definition querySelectorAll :: "document \<Rightarrow> string \<Rightarrow> HTMLElement list outcome" where
  "querySelectorAll doc selector =
     (if selector = [] then ThrowsSyntaxError
      else if selector = ''*'' then Returns doc
      else if isIdentifier selector then Returns (filter (selects selector) doc)
      else NotModelled)"

subsection \<open>From a record back to a live element\<close>

text \<open>
  The comparison inside \<^verbatim>\<open>find\<close> (selection-manager.tsx, lines 174 to 176): three
  fields compared with \<^verbatim>\<open>===\<close>.
\<close>

definition sameFields :: "SelectedElement \<Rightarrow> HTMLElement \<Rightarrow> bool" where
  "sameFields selectedElement htmlEl =
     (className htmlEl = className selectedElement \<and>
      elementId htmlEl = elementId selectedElement \<and>
      textContent htmlEl = textContent selectedElement)"

text \<open>
  The body of the effect of \<^verbatim>\<open>SelectionManager\<close> (selection-manager.tsx, lines 171 to
  177), which \<^verbatim>\<open>AnalyzerOverlay\<close> repeats word for word (analyzer-overlay.tsx, lines
  36 to 42): \<^verbatim>\<open>Array.from(elements).find(...)\<close> over what \<^verbatim>\<open>querySelectorAll\<close> returns
  for the recorded tag in lower case. When the query throws, so does the effect.
\<close>

definition matchingElement :: "document \<Rightarrow> SelectedElement \<Rightarrow> HTMLElement option outcome" where
  "matchingElement doc selectedElement =
     (case querySelectorAll doc (toLowerCase (tagName selectedElement)) of
        Returns elements \<Rightarrow> Returns (find (sameFields selectedElement) elements)
      | ThrowsSyntaxError \<Rightarrow> ThrowsSyntaxError
      | NotModelled \<Rightarrow> NotModelled)"

text \<open>
  The whole effect, which the specification calls \<open>resolve\<close>: a missing record clears
  the reference, a record sets it to the match or to \<^verbatim>\<open>null\<close>. What is returned is the
  value given to \<^verbatim>\<open>setSelectedElementRef\<close> (to \<^verbatim>\<open>setTargetElementRef\<close> in the
  overlay).
\<close>

definition resolve :: "document \<Rightarrow> SelectedElement option \<Rightarrow> HTMLElement option outcome" where
  "resolve doc selectedElement =
     (case selectedElement of
        None \<Rightarrow> Returns None
      | Some r \<Rightarrow> matchingElement doc r)"

text \<open>
  The specification's wording of the match, for comparison with the code: the tag
  name equal without regard to case, and class name, id and text content equal
  exactly. And the match as the code makes it for a recorded tag that is a type
  selector: the element selected by the recorded tag in lower case, and the three
  fields equal.
\<close>

definition sameTagAndFields :: "SelectedElement \<Rightarrow> HTMLElement \<Rightarrow> bool" where
  "sameTagAndFields r el =
     (toLowerCase (tagName el) = toLowerCase (tagName r) \<and>
      className el = className r \<and>
      elementId el = elementId r \<and>
      textContent el = textContent r)"


subsection \<open>Messages to the parent window\<close>

text \<open>
  What \<^verbatim>\<open>ContentBridge\<close> posts with \<^verbatim>\<open>window.parent.postMessage\<close>: the \<^verbatim>\<open>type\<close>
  field is the constructor, the payload its argument. (\<^verbatim>\<open>CONTEXT_MENU_ACTION\<close>, posted
  by \<^verbatim>\<open>handleMenuAction\<close>, is not modelled: no property below is about it.)
\<close>

datatype outMessage =
    ELEMENT_SELECTED "SelectedElement option"
  | CONTENT_HEIGHT_CHANGED int
  | ANALYZER_ANIMATION_COMPLETE bool

subsection \<open>Height reporting\<close>

text \<open>
  The five numbers \<^verbatim>\<open>measureAndSendHeight\<close> reads (content-bridge.tsx, lines 46 to 52),
  integers as the DOM gives them.
\<close>

record heights =
  bodyScrollHeight :: int
  bodyOffsetHeight :: int
  docClientHeight :: int
  docScrollHeight :: int
  docOffsetHeight :: int

definition measuredHeight :: "heights \<Rightarrow> int" where
  "measuredHeight h =
     max (bodyScrollHeight h)
       (max (bodyOffsetHeight h)
          (max (docClientHeight h)
             (max (docScrollHeight h) (docOffsetHeight h))))"

definition contentHeight :: "int \<Rightarrow> int" where
  "contentHeight measured = min measured 6400"

text \<open>The message the timer callback of \<^verbatim>\<open>measureAndSendHeight\<close> posts.\<close>

definition measureAndSendHeight :: "heights \<Rightarrow> outMessage" where
  "measureAndSendHeight h =
     CONTENT_HEIGHT_CHANGED (max (contentHeight (measuredHeight h)) 800)"

subsection \<open>The window\<close>

text \<open>
  What the handlers read of the page: the elements of the document, the hit test
  \<^verbatim>\<open>document.elementFromPoint\<close>, the layout query \<^verbatim>\<open>getBoundingClientRect\<close> and the
  size of the viewport. Coordinates are CSS pixels, taken as integers.
\<close>

record DOMRect =
  rectTop :: int
  rectLeft :: int
  rectWidth :: int
  rectHeight :: int

record window =
  elements :: document
  elementFromPoint :: "int \<Rightarrow> int \<Rightarrow> HTMLElement option"
  getBoundingClientRect :: "HTMLElement \<Rightarrow> DOMRect"
  innerWidth :: int
  innerHeight :: int

text \<open>
  A mouse event: where it happened, and whether a handler has called
  \<^verbatim>\<open>preventDefault\<close> or \<^verbatim>\<open>stopPropagation\<close> on it.
\<close>

record MouseEvent =
  clientX :: int
  clientY :: int
  defaultPrevented :: bool
  propagationStopped :: bool

section \<open>The selection manager\<close>

text \<open>
  \<^verbatim>\<open>handleElementSelect\<close> of \<^verbatim>\<open>ContentBridge\<close> (content-bridge.tsx, lines 81 to 86),
  which the selection manager receives as \<^verbatim>\<open>onElementSelect\<close>: it posts one message.
  The Escape handler calls it with \<^verbatim>\<open>null as any\<close>, so the argument is optional.
\<close>

definition handleElementSelect :: "SelectedElement option \<Rightarrow> outMessage list" where
  "handleElementSelect elementData' = [ELEMENT_SELECTED elementData']"

text \<open>The two state variables of \<^verbatim>\<open>SelectionManager\<close>.\<close>

record selection =
  hoveredElement :: "HTMLElement option"
  selectedElementRef :: "HTMLElement option"

text \<open>
  \<^verbatim>\<open>handleClick\<close> (selection-manager.tsx, lines 123 to 140): the event as the handler
  leaves it, and the messages posted. The handler sets no state.
\<close>

definition handleClick :: "window \<Rightarrow> MouseEvent \<Rightarrow> MouseEvent \<times> outMessage list" where
  "handleClick win e =
     (case elementFromPoint win (clientX e) (clientY e) of
        None \<Rightarrow> (e, [])
      | Some element \<Rightarrow>
          (e\<lparr>defaultPrevented := True, propagationStopped := True\<rparr>,
           handleElementSelect (Some (elementData element))))"

text \<open>
  \<^verbatim>\<open>handleKeyDown\<close> (selection-manager.tsx, lines 150 to 156): the new state and the
  messages posted.
\<close>

definition handleKeyDown :: "string \<Rightarrow> selection \<Rightarrow> selection \<times> outMessage list" where
  "handleKeyDown key s =
     (if key = ''Escape''
      then (s\<lparr>hoveredElement := None\<rparr>, handleElementSelect None)
      else (s, []))"

text \<open>
  A \<^verbatim>\<open>keydown\<close> event on the document, as the selection manager sees it: the effect
  attaches \<^verbatim>\<open>handleKeyDown\<close> only while \<^verbatim>\<open>isSelectMode\<close> holds.
\<close>

definition keydown :: "bool \<Rightarrow> string \<Rightarrow> selection \<Rightarrow> selection \<times> outMessage list" where
  "keydown isSelectMode' key s =
     (if isSelectMode' then handleKeyDown key s else (s, []))"

section \<open>The context menu manager\<close>

text \<open>
  The four state variables of \<^verbatim>\<open>ContextMenuManager\<close>; \<^verbatim>\<open>menuPosition\<close> is the pair
  \<^verbatim>\<open>{ x, y }\<close>.
\<close>

record contextMenu =
  contextMenuElement :: "HTMLElement option"
  contextMenuOpen :: bool
  menuPosition :: "int \<times> int"
  highlightRect :: "DOMRect option"

text \<open>
  \<^verbatim>\<open>handleContextMenu\<close> (context-menu-manager.tsx, lines 59 to 88): the event as the
  handler leaves it, and the new state.
\<close>

definition handleContextMenu :: "window \<Rightarrow> MouseEvent \<Rightarrow> contextMenu \<Rightarrow> MouseEvent \<times> contextMenu" where
  "handleContextMenu win e s =
     (let e' = e\<lparr>defaultPrevented := True\<rparr>
      in case elementFromPoint win (clientX e) (clientY e) of
           None \<Rightarrow> (e', s)
         | Some element \<Rightarrow>
             (let rect = getBoundingClientRect win element;
                  menuWidth = 220;
                  menuHeight = 130;
                  x = (if clientX e + menuWidth > innerWidth win
                       then innerWidth win - menuWidth - 10 else clientX e);
                  y = (if clientY e + menuHeight > innerHeight win
                       then innerHeight win - menuHeight - 10 else clientY e)
              in (e', s\<lparr>contextMenuElement := Some element,
                        highlightRect := Some rect,
                        menuPosition := (x, y),
                        contextMenuOpen := True\<rparr>)))"

text \<open>
  \<^verbatim>\<open>handleClickOutside\<close> (context-menu-manager.tsx, lines 96 to 102). The menu is
  rendered while the listener is attached, so \<^verbatim>\<open>menuRef.current\<close> is set; the argument
  says whether it contains the target of the event.
\<close>

definition handleClickOutside :: "bool \<Rightarrow> contextMenu \<Rightarrow> contextMenu" where
  "handleClickOutside targetInMenu s =
     (if \<not> targetInMenu
      then s\<lparr>contextMenuOpen := False, contextMenuElement := None, highlightRect := None\<rparr>
      else s)"

text \<open>
  A \<^verbatim>\<open>contextmenu\<close> event on the document. \<^verbatim>\<open>handleContextMenu\<close> is attached when the
  component mounts and runs first. While the menu is open (as of the last render)
  \<^verbatim>\<open>handleClickOutside\<close> is attached for the same event (line 114) and runs after it,
  and its state changes are applied after those of the first listener.
\<close>

definition contextmenuEvent ::
  "window \<Rightarrow> bool \<Rightarrow> MouseEvent \<Rightarrow> contextMenu \<Rightarrow> MouseEvent \<times> contextMenu" where
  "contextmenuEvent win targetInMenu e s =
     (let (e', s1) = handleContextMenu win e s
      in (e', if contextMenuOpen s then handleClickOutside targetInMenu s1 else s1))"

text \<open>
  The menu box of nominal size 220 by 130 at a position lies inside a viewport of the
  given width and height.
\<close>

definition menuInsideViewport :: "int \<times> int \<Rightarrow> int \<Rightarrow> int \<Rightarrow> bool" where
  "menuInsideViewport pos viewportWidth viewportHeight =
     (0 \<le> fst pos \<and> fst pos + 220 \<le> viewportWidth \<and>
      0 \<le> snd pos \<and> snd pos + 130 \<le> viewportHeight)"

section \<open>The bridge and the analyzer overlay as an event loop\<close>

text \<open>
  \<^verbatim>\<open>AnalyzerOverlay\<close> runs an \<^verbatim>\<open>async\<close> function that awaits animation frames and then
  sets timers, and \<^verbatim>\<open>ContentBridge\<close> starts and ends it through state that it passes
  down as props. Both are modelled together as one state, changed by three kinds of
  event: a message from the parent, an animation frame, and the firing of timers.
\<close>

datatype scanPhase = Down | Up | Down2 | Up2 | TargetFound | ContextEnhancing | Complete

datatype direction = DirDown | DirUp

text \<open>
  The messages \<^verbatim>\<open>handleMessage\<close> tells apart by \<^verbatim>\<open>event.data.type\<close>; any other type is
  \<open>OtherMessage\<close>.
\<close>

datatype inMessage =
    SET_SELECT_MODE bool
  | SET_SELECTED_ELEMENT "SelectedElement option"
  | START_ANALYZER_ANIMATION "SelectedElement option"
  | OtherMessage

text \<open>
  The four \<^verbatim>\<open>await\<close> points of \<^verbatim>\<open>runAnalyzerSequence\<close>, one per sweep, and the two
  callbacks it passes to \<^verbatim>\<open>setTimeout\<close>.
\<close>

datatype await = Sweep1 | Sweep2 | Sweep3 | Sweep4

datatype timerCallback = AfterTargetFound | AfterContextEnhancing

text \<open>
  The closure \<^verbatim>\<open>animate\<close> that \<^verbatim>\<open>animateLaser\<close> hands to \<^verbatim>\<open>requestAnimationFrame\<close>: the
  variables it captured, the \<^verbatim>\<open>await\<close> that its promise resumes, and the value of
  \<^verbatim>\<open>targetElementRef\<close> in the render whose effect started the sequence (the sequence
  reads that value, not the current state, when it tests the target at line 70).
\<close>

record animateClosure =
  startTime :: nat
  startPos :: real
  endPos :: real
  duration :: nat
  resumes :: await
  capturedTargetElementRef :: "HTMLElement option"

text \<open>
  What the properties observe of a run, in the order it happens: the calls of the
  state setters of the overlay, the calls of \<^verbatim>\<open>onComplete\<close>, and the messages posted.
\<close>

datatype action =
    SetScanPhase scanPhase
  | SetLaserPosition real
  | SetShowTargetFound bool
  | SetShowContextEnhancing bool
  | OnComplete
  | PostMessage outMessage

text \<open>
  The state: the four state variables of \<^verbatim>\<open>ContentBridge\<close>, the five of
  \<^verbatim>\<open>AnalyzerOverlay\<close>, and the queues of the browser. The props of the overlay are
  state of the bridge: \<^verbatim>\<open>isActive\<close> is \<^verbatim>\<open>isAnalyzing\<close>, \<^verbatim>\<open>targetElement\<close> is
  \<^verbatim>\<open>analyzerTarget\<close>, and \<^verbatim>\<open>onComplete\<close> is \<^verbatim>\<open>handleAnalyzerComplete\<close>.
  An object that arrives in a message is a new object each time, and a
  render of \<^verbatim>\<open>ContentBridge\<close> makes a new function \<^verbatim>\<open>handleAnalyzerComplete\<close>; React
  compares state and effect dependencies by identity, so both carry a reference
  number, taken from the counter \<open>fresh\<close>. \<open>resolveDeps\<close> and \<open>sequenceDeps\<close> are the
  dependency arrays \<^verbatim>\<open>[targetElement]\<close> and \<^verbatim>\<open>[isActive, targetElementRef, onComplete]\<close>
  of the two effects of the overlay, as of the last time each was compared. The clock
  is \<^verbatim>\<open>Date.now()\<close>, in milliseconds. \<open>trace\<close> only records; nothing reads it.
  \<open>faulted\<close> is set when the first effect of the overlay did not return (its query
  threw, or is outside what is modelled): from then on the execution is not modelled,
  since what React does after an effect has thrown depends on its version.
\<close>

record world =
  clock :: nat
  fresh :: nat
  isSelectMode :: bool
  selectedElement :: "SelectedElement option"
  isAnalyzing :: bool
  analyzerTarget :: "(nat \<times> SelectedElement) option"
  handleAnalyzerCompleteRef :: nat
  scanPhase :: scanPhase
  laserPosition :: real
  showTargetFound :: bool
  showContextEnhancing :: bool
  targetElementRef :: "HTMLElement option"
  resolveDeps :: "nat option"
  sequenceDeps :: "bool \<times> HTMLElement option \<times> nat"
  animationFrames :: "animateClosure list"
  timers :: "(nat \<times> timerCallback) list"
  trace :: "action list"
  faulted :: bool

subsection \<open>State setters and browser queues\<close>

definition setScanPhase :: "scanPhase \<Rightarrow> world \<Rightarrow> world" where
  "setScanPhase p w = w\<lparr>scanPhase := p, trace := trace w @ [SetScanPhase p]\<rparr>"

definition setLaserPosition :: "real \<Rightarrow> world \<Rightarrow> world" where
  "setLaserPosition pos w = w\<lparr>laserPosition := pos, trace := trace w @ [SetLaserPosition pos]\<rparr>"

definition setShowTargetFound :: "bool \<Rightarrow> world \<Rightarrow> world" where
  "setShowTargetFound b w = w\<lparr>showTargetFound := b, trace := trace w @ [SetShowTargetFound b]\<rparr>"

definition setShowContextEnhancing :: "bool \<Rightarrow> world \<Rightarrow> world" where
  "setShowContextEnhancing b w =
     w\<lparr>showContextEnhancing := b, trace := trace w @ [SetShowContextEnhancing b]\<rparr>"

definition requestAnimationFrame :: "animateClosure \<Rightarrow> world \<Rightarrow> world" where
  "requestAnimationFrame callback w = w\<lparr>animationFrames := animationFrames w @ [callback]\<rparr>"

definition setTimeout :: "timerCallback \<Rightarrow> nat \<Rightarrow> world \<Rightarrow> world" where
  "setTimeout callback delay w = w\<lparr>timers := timers w @ [(clock w + delay, callback)]\<rparr>"

subsection \<open>The sequence\<close>

text \<open>
  \<^verbatim>\<open>animateLaser\<close> (analyzer-overlay.tsx, lines 93 to 115) up to its first
  \<^verbatim>\<open>requestAnimationFrame\<close>: it reads the clock and the height of the viewport and
  queues \<^verbatim>\<open>animate\<close>.
\<close>

definition animateLaser ::
  "window \<Rightarrow> direction \<Rightarrow> nat \<Rightarrow> await \<Rightarrow> HTMLElement option \<Rightarrow> world \<Rightarrow> world" where
  "animateLaser win dir dur k captured w =
     requestAnimationFrame
       \<lparr>startTime = clock w,
        startPos = (if dir = DirDown then 0 else real_of_int (innerHeight win)),
        endPos = (if dir = DirDown then real_of_int (innerHeight win) else 0),
        duration = dur,
        resumes = k,
        capturedTargetElementRef = captured\<rparr> w"

text \<open>
  \<^verbatim>\<open>runAnalyzerSequence\<close> up to its first \<^verbatim>\<open>await\<close> (line 54), with the value of
  \<^verbatim>\<open>targetElementRef\<close> it closes over.
\<close>

definition runAnalyzerSequence :: "window \<Rightarrow> HTMLElement option \<Rightarrow> world \<Rightarrow> world" where
  "runAnalyzerSequence win captured w = animateLaser win DirDown 750 Sweep1 captured w"

text \<open>
  The first effect of \<^verbatim>\<open>AnalyzerOverlay\<close> (lines 29 to 45): the value it gives to
  \<^verbatim>\<open>setTargetElementRef\<close>. The prop \<^verbatim>\<open>targetElement\<close> is the \<^verbatim>\<open>analyzerTarget\<close> of the
  bridge.
\<close>

definition resolveEffect :: "window \<Rightarrow> world \<Rightarrow> HTMLElement option outcome" where
  "resolveEffect win w = resolve (elements win) (map_option snd (analyzerTarget w))"

text \<open>
  The second effect (lines 48 to 91): it returns at once unless \<^verbatim>\<open>isActive\<close> holds,
  which is the \<^verbatim>\<open>isAnalyzing\<close> of the bridge, and else starts a sequence. It returns no
  cleanup function, so a sequence started earlier goes on.
\<close>

definition sequenceEffect :: "window \<Rightarrow> world \<Rightarrow> world" where
  "sequenceEffect win w =
     (if \<not> isAnalyzing w then w
      else runAnalyzerSequence win (targetElementRef w) w)"

text \<open>
  After a render, React runs the effects whose dependencies differ from those of the
  render before, in the order of the source. Both see the state of the render they
  belong to: the state change the first effect asks for reaches the second effect
  only with the next render, so it is returned beside the new state.
\<close>

definition flushEffects :: "window \<Rightarrow> world \<Rightarrow> world \<times> HTMLElement option outcome" where
  "flushEffects win w =
     (let deps1 = map_option fst (analyzerTarget w);
          deps2 = (isAnalyzing w, targetElementRef w, handleAnalyzerCompleteRef w);
          pending = (if deps1 \<noteq> resolveDeps w then resolveEffect win w
                     else Returns (targetElementRef w));
          w1 = w\<lparr>resolveDeps := deps1, sequenceDeps := deps2\<rparr>
      in (if deps2 \<noteq> sequenceDeps w then sequenceEffect win w1 else w1, pending))"

text \<open>
  A render of \<^verbatim>\<open>AnalyzerOverlay\<close> with new props: its effects run, and when the first
  one changed \<^verbatim>\<open>targetElementRef\<close> the component renders once more and its effects run
  again with the new state. When the first effect did not return, the execution ends
  here, with the state as it was before the effects.
\<close>

definition renderAnalyzerOverlay :: "window \<Rightarrow> world \<Rightarrow> world" where
  "renderAnalyzerOverlay win w =
     (let (w1, pending) = flushEffects win w
      in case pending of
           Returns matchingElement' \<Rightarrow>
             if matchingElement' = targetElementRef w1 then w1
             else fst (flushEffects win (w1\<lparr>targetElementRef := matchingElement'\<rparr>))
         | ThrowsSyntaxError \<Rightarrow> w\<lparr>faulted := True\<rparr>
         | NotModelled \<Rightarrow> w\<lparr>faulted := True\<rparr>)"

text \<open>
  A render of \<^verbatim>\<open>ContentBridge\<close> after its state changed: \<^verbatim>\<open>handleAnalyzerComplete\<close> is a
  new function, and the overlay gets the new props.
\<close>

definition renderContentBridge :: "window \<Rightarrow> world \<Rightarrow> world" where
  "renderContentBridge win w =
     renderAnalyzerOverlay win
       (w\<lparr>handleAnalyzerCompleteRef := fresh w, fresh := Suc (fresh w)\<rparr>)"

text \<open>
  \<^verbatim>\<open>handleAnalyzerComplete\<close> (content-bridge.tsx, lines 89 to 96), the \<^verbatim>\<open>onComplete\<close> of
  the overlay. The bridge renders again only if one of the two setters changed the
  state.
\<close>

definition handleAnalyzerComplete :: "window \<Rightarrow> world \<Rightarrow> world" where
  "handleAnalyzerComplete win w =
     (let w1 = w\<lparr>isAnalyzing := False,
                  analyzerTarget := None,
                  trace := trace w @ [OnComplete, PostMessage (ANALYZER_ANIMATION_COMPLETE True)]\<rparr>
      in if isAnalyzing w \<or> analyzerTarget w \<noteq> None
         then renderContentBridge win w1
         else w1)"

text \<open>
  \<^verbatim>\<open>runAnalyzerSequence\<close> from the \<^verbatim>\<open>await\<close> that a finished sweep resumes (lines 55 to
  87) to the next \<^verbatim>\<open>await\<close> or to its end.
\<close>

definition afterSweep :: "window \<Rightarrow> await \<Rightarrow> HTMLElement option \<Rightarrow> world \<Rightarrow> world" where
  "afterSweep win k captured w =
     (case k of
        Sweep1 \<Rightarrow> animateLaser win DirUp 750 Sweep2 captured (setScanPhase Up w)
      | Sweep2 \<Rightarrow> animateLaser win DirDown 750 Sweep3 captured (setScanPhase Down2 w)
      | Sweep3 \<Rightarrow> animateLaser win DirUp 750 Sweep4 captured (setScanPhase Up2 w)
      | Sweep4 \<Rightarrow>
          (let w1 = setScanPhase TargetFound w
           in case captured of
                Some targetElement \<Rightarrow> setTimeout AfterTargetFound 1000 (setShowTargetFound True w1)
              | None \<Rightarrow> handleAnalyzerComplete win (setScanPhase Complete w1)))"

text \<open>
  One call of \<^verbatim>\<open>animate\<close> (lines 99 to 111). \<^verbatim>\<open>resolve()\<close> resumes the sequence before
  the next callback of the same frame runs.
\<close>

definition animate :: "window \<Rightarrow> animateClosure \<Rightarrow> world \<Rightarrow> world" where
  "animate win callback w =
     (let elapsed = clock w - startTime callback;
          progress = min (real elapsed / real (duration callback)) 1;
          easeProgress = 1 - (1 - progress) ^ 3;
          w1 = setLaserPosition
                 (startPos callback + (endPos callback - startPos callback) * easeProgress) w
      in if progress < 1
         then requestAnimationFrame callback w1
         else afterSweep win (resumes callback) (capturedTargetElementRef callback) w1)"

text \<open>The two timer callbacks (lines 72 to 83).\<close>

definition fireTimer :: "window \<Rightarrow> timerCallback \<Rightarrow> world \<Rightarrow> world" where
  "fireTimer win callback w =
     (case callback of
        AfterTargetFound \<Rightarrow>
          setTimeout AfterContextEnhancing 1500
            (setShowContextEnhancing True
              (setShowTargetFound False
                (setScanPhase ContextEnhancing w)))
      | AfterContextEnhancing \<Rightarrow>
          handleAnalyzerComplete win
            (setScanPhase Complete
              (setShowContextEnhancing False w)))"

subsection \<open>Events\<close>

text \<open>
  \<^verbatim>\<open>handleMessage\<close> (content-bridge.tsx, lines 25 to 34). A setter given a new object
  always changes the state; given \<^verbatim>\<open>null\<close> or a boolean it changes the state only if
  the value differs. The setters that one handler calls take effect together, in one
  render, and the effects of that render run before the next event. A new
  \<^verbatim>\<open>selectedElement\<close> makes the effect of \<^verbatim>\<open>SelectionManager\<close> run its lookup
  (selection-manager.tsx, lines 163 to 180); the reference it sets is not part of this
  state, but when the lookup does not return, the execution ends as it does for the
  overlay.
\<close>

definition handleMessage :: "window \<Rightarrow> inMessage \<Rightarrow> world \<Rightarrow> world" where
  "handleMessage win m w =
     (case m of
        SET_SELECT_MODE enabled \<Rightarrow>
          (if enabled = isSelectMode w then w
           else renderContentBridge win (w\<lparr>isSelectMode := enabled\<rparr>))
      | SET_SELECTED_ELEMENT element \<Rightarrow>
          (if element = None \<and> selectedElement w = None then w
           else (case resolve (elements win) element of
                   Returns selectedElementRef' \<Rightarrow>
                     renderContentBridge win (w\<lparr>selectedElement := element\<rparr>)
                 | ThrowsSyntaxError \<Rightarrow> w\<lparr>faulted := True\<rparr>
                 | NotModelled \<Rightarrow> w\<lparr>faulted := True\<rparr>))
      | START_ANALYZER_ANIMATION targetElement \<Rightarrow>
          (let w1 = (case targetElement of
                       None \<Rightarrow> w\<lparr>isAnalyzing := True, analyzerTarget := None\<rparr>
                     | Some r \<Rightarrow> w\<lparr>isAnalyzing := True,
                                    analyzerTarget := Some (fresh w, r),
                                    fresh := Suc (fresh w)\<rparr>)
           in if isAnalyzing w \<and> targetElement = None \<and> analyzerTarget w = None then w1
              else renderContentBridge win w1)
      | OtherMessage \<Rightarrow> w)"

text \<open>
  An animation frame runs the callbacks queued before it, in order; a callback queued
  during the frame waits for the next one.
\<close>

fun runCallbacks :: "window \<Rightarrow> animateClosure list \<Rightarrow> world \<Rightarrow> world" where
  "runCallbacks win [] w = w"
| "runCallbacks win (callback # callbacks) w = runCallbacks win callbacks (animate win callback w)"

definition animationFrame :: "window \<Rightarrow> world \<Rightarrow> world" where
  "animationFrame win w = runCallbacks win (animationFrames w) (w\<lparr>animationFrames := []\<rparr>)"

text \<open>The timers that are due fire, the earliest first; the others stay queued.\<close>

fun fireAll :: "window \<Rightarrow> (nat \<times> timerCallback) list \<Rightarrow> world \<Rightarrow> world" where
  "fireAll win [] w = w"
| "fireAll win ((due, callback) # rest) w = fireAll win rest (fireTimer win callback w)"

definition runTimers :: "window \<Rightarrow> world \<Rightarrow> world" where
  "runTimers win w =
     fireAll win
       (sort_key fst (filter (\<lambda>t. fst t \<le> clock w) (timers w)))
       (w\<lparr>timers := filter (\<lambda>t. \<not> fst t \<le> clock w) (timers w)\<rparr>)"

text \<open>
  The events. The number of an animation frame or of a timer event is the time in
  milliseconds since the event before it, so the clock never runs backwards.
\<close>

datatype event = Message inMessage | AnimationFrame nat | Timers nat

fun dispatch :: "window \<Rightarrow> event \<Rightarrow> world \<Rightarrow> world" where
  "dispatch win (Message m) w = handleMessage win m w"
| "dispatch win (AnimationFrame dt) w = animationFrame win (w\<lparr>clock := clock w + dt\<rparr>)"
| "dispatch win (Timers dt) w = runTimers win (w\<lparr>clock := clock w + dt\<rparr>)"

text \<open>An event is handled unless the execution has ended.\<close>

definition step :: "window \<Rightarrow> event \<Rightarrow> world \<Rightarrow> world" where
  "step win e w = (if faulted w then w else dispatch win e w)"

fun exec :: "window \<Rightarrow> event list \<Rightarrow> world \<Rightarrow> world" where
  "exec win [] w = w"
| "exec win (e # es) w = exec win es (step win e w)"

text \<open>
  The state after the components have mounted: the initial values of every
  \<^verbatim>\<open>useState\<close>, both effects of the overlay run once with \<^verbatim>\<open>isActive\<close> false and no
  target, nothing queued.
\<close>

definition mounted :: world where
  "mounted =
     \<lparr>clock = 0, fresh = 1,
      isSelectMode = False, selectedElement = None,
      isAnalyzing = False, analyzerTarget = None, handleAnalyzerCompleteRef = 0,
      scanPhase = Down, laserPosition = 0,
      showTargetFound = False, showContextEnhancing = False, targetElementRef = None,
      resolveDeps = None, sequenceDeps = (False, None, 0),
      animationFrames = [], timers = [], trace = [], faulted = False\<rparr>"

subsection \<open>Reading a trace\<close>

fun isPhase :: "action \<Rightarrow> bool" where
  "isPhase (SetScanPhase p) = True"
| "isPhase a = False"

fun isPosition :: "action \<Rightarrow> bool" where
  "isPosition (SetLaserPosition pos) = True"
| "isPosition a = False"

text \<open>The phases set, the messages posted and the number of completions, in a trace.\<close>

definition phases :: "action list \<Rightarrow> action list" where
  "phases tr = filter isPhase tr"

definition posted :: "action list \<Rightarrow> outMessage list" where
  "posted tr = concat (map (\<lambda>a. case a of PostMessage m \<Rightarrow> [m] | _ \<Rightarrow> []) tr)"

definition completions :: "action list \<Rightarrow> nat" where
  "completions tr = length (filter (\<lambda>a. a = OnComplete) tr)"

text \<open>A trace without its position updates.\<close>

definition withoutPositions :: "action list \<Rightarrow> action list" where
  "withoutPositions tr = filter (\<lambda>a. \<not> isPosition a) tr"

text \<open>Whether a trace holds a completion message that reports failure.\<close>

definition reportedFailure :: "action list \<Rightarrow> bool" where
  "reportedFailure tr \<longleftrightarrow> ANALYZER_ANIMATION_COMPLETE False \<in> set (posted tr)"

subsection \<open>Runs\<close>

text \<open>
  No run is in progress: the state as \<open>mounted\<close> gives it and as a run that has ended
  without a target leaves it. The overlay is inactive and has no target, its effects
  have seen that, and nothing is queued.
\<close>

definition idle :: "world \<Rightarrow> bool" where
  "idle w \<longleftrightarrow>
     \<not> faulted w \<and> \<not> isAnalyzing w \<and> analyzerTarget w = None \<and> targetElementRef w = None \<and>
     resolveDeps w = None \<and> sequenceDeps w = (False, None, handleAnalyzerCompleteRef w) \<and>
     animationFrames w = [] \<and> timers w = []"

fun isMessage :: "event \<Rightarrow> bool" where
  "isMessage (Message m) = True"
| "isMessage e = False"

text \<open>
  What a run whose target does not resolve does from start to end, position updates left
  out, and what of it is done when the sequence waits for a given sweep.
\<close>

definition unresolvedRun :: "action list" where
  "unresolvedRun =
     [SetScanPhase Up, SetScanPhase Down2, SetScanPhase Up2,
      SetScanPhase TargetFound, SetScanPhase Complete,
      OnComplete, PostMessage (ANALYZER_ANIMATION_COMPLETE True)]"

fun doneBefore :: "await \<Rightarrow> action list" where
  "doneBefore Sweep1 = []"
| "doneBefore Sweep2 = [SetScanPhase Up]"
| "doneBefore Sweep3 = [SetScanPhase Up, SetScanPhase Down2]"
| "doneBefore Sweep4 = [SetScanPhase Up, SetScanPhase Down2, SetScanPhase Up2]"

text \<open>
  The state of such a run while it waits for a sweep: the overlay is active without a
  live target, one \<^verbatim>\<open>animate\<close> callback of that sweep is queued, and no timer is.
\<close>

definition sweeping :: "await \<Rightarrow> world \<Rightarrow> bool" where
  "sweeping k w \<longleftrightarrow>
     \<not> faulted w \<and> isAnalyzing w \<and> targetElementRef w = None \<and> timers w = [] \<and>
     (\<exists>callback. animationFrames w = [callback] \<and> resumes callback = k \<and>
        duration callback = 750 \<and> startTime callback \<le> clock w \<and>
        capturedTargetElementRef callback = None) \<and>
     withoutPositions (trace w) = doneBefore k"

definition finished :: "world \<Rightarrow> bool" where
  "finished w \<longleftrightarrow> idle w \<and> withoutPositions (trace w) = unresolvedRun"

subsection \<open>Sample documents\<close>

definition sampleHeading :: HTMLElement where
  "sampleHeading =
     \<lparr>tagName = ''H1'', className = ''title'', elementId = ''top'',
      textContent = Some ''Welcome'', innerHTML = ''Welcome'',
      outerHTML = ''<h1 class=title id=top>Welcome</h1>'', node = 0,
      localName = ''h1'', inHtmlNamespace = True\<rparr>"

definition sampleItem :: "nat \<Rightarrow> HTMLElement" where
  "sampleItem n =
     \<lparr>tagName = ''LI'', className = ''item'', elementId = [],
      textContent = Some ''More'', innerHTML = ''More'',
      outerHTML = ''<li class=item>More</li>'', node = n,
      localName = ''li'', inHtmlNamespace = True\<rparr>"

definition sampleDocument :: document where
  "sampleDocument = [sampleHeading, sampleItem 1, sampleItem 2]"



text \<open>
  A window of a given size showing the sample document: the hit test finds the heading
  at every point of the viewport and nothing outside it.
\<close>

definition sampleWindow :: "int \<Rightarrow> int \<Rightarrow> window" where
  "sampleWindow w h =
     \<lparr>elements = sampleDocument,
      elementFromPoint =
        (\<lambda>x y. if 0 \<le> x \<and> x < w \<and> 0 \<le> y \<and> y < h then Some sampleHeading else None),
      getBoundingClientRect =
        (\<lambda>el. \<lparr>rectTop = 0, rectLeft = 0, rectWidth = 300, rectHeight = 40\<rparr>),
      innerWidth = w,
      innerHeight = h\<rparr>"

definition sampleEvent :: "int \<Rightarrow> int \<Rightarrow> MouseEvent" where
  "sampleEvent x y =
     \<lparr>clientX = x, clientY = y, defaultPrevented = False, propagationStopped = False\<rparr>"

text \<open>A page all of whose five measured heights are the same number.\<close>

definition uniformHeights :: "int \<Rightarrow> heights" where
  "uniformHeights n =
     \<lparr>bodyScrollHeight = n, bodyOffsetHeight = n, docClientHeight = n,
      docScrollHeight = n, docOffsetHeight = n\<rparr>"

text \<open>The menu as a right click on the heading has opened it.\<close>

definition openMenu :: contextMenu where
  "openMenu =
     \<lparr>contextMenuElement = Some sampleHeading, contextMenuOpen = True,
      menuPosition = (40, 30),
      highlightRect = Some \<lparr>rectTop = 0, rectLeft = 0, rectWidth = 300, rectHeight = 40\<rparr>\<rparr>"

definition closedMenu :: contextMenu where
  "closedMenu =
     \<lparr>contextMenuElement = None, contextMenuOpen = False,
      menuPosition = (0, 0), highlightRect = None\<rparr>"

text \<open>
  A record that matches no element of the sample document, and the events of a run
  whose four sweeps each end at their first frame: the start message, then four
  animation frames 750 ms apart.
\<close>

definition goneRecord :: SelectedElement where
  "goneRecord = (elementData sampleHeading)\<lparr>className := ''gone''\<rparr>"

definition sampleStart :: "SelectedElement option \<Rightarrow> event list" where
  "sampleStart target =
     [Message (START_ANALYZER_ANIMATION target),
      AnimationFrame 750, AnimationFrame 750, AnimationFrame 750, AnimationFrame 750]"

text \<open>
  The events of a run during which the parent switches select mode on, 400 ms after the
  start: the bridge renders again, and three more frames bring the clock to 3000 ms.
\<close>

definition sampleDisturbed :: "event list" where
  "sampleDisturbed =
     [Message (START_ANALYZER_ANIMATION None),
      AnimationFrame 400, Message (SET_SELECT_MODE True), AnimationFrame 350,
      AnimationFrame 750, AnimationFrame 750, AnimationFrame 750, AnimationFrame 750]"

definition sampleOverlap :: "event list" where
  "sampleOverlap =
     [Message (START_ANALYZER_ANIMATION (Some (elementData sampleHeading))),
      AnimationFrame 400, Message (SET_SELECT_MODE True), AnimationFrame 350,
      AnimationFrame 750, AnimationFrame 750, AnimationFrame 750]"

section \<open>Properties of the lookup\<close>









lemma handleClick_posts_elementData:
  assumes "elementFromPoint win (clientX e) (clientY e) = Some element"
  shows "snd (handleClick win e) = [ELEMENT_SELECTED (Some (elementData element))]"
  using assms by (simp add: handleClick_def handleElementSelect_def)

lemma sameTagAndFields_elementData: "sameTagAndFields (elementData e) e"
  by (simp add: sameTagAndFields_def elementData_def)









section \<open>Properties of the height report\<close>

text \<open>
  C7. The height in the \<^verbatim>\<open>CONTENT_HEIGHT_CHANGED\<close> message is the measured height
  brought into the interval from 800 to 6400: the upper bound is applied first
  (\<open>contentHeight\<close>), then the lower one. Measured heights 0, 500, 4000 and 9000 are
  reported as 800, 800, 4000 and 6400.
\<close>

theorem measureAndSendHeight_clamped:
  "measureAndSendHeight h =
     CONTENT_HEIGHT_CHANGED
       (if measuredHeight h < 800 then 800
        else if 6400 < measuredHeight h then 6400
        else measuredHeight h) \<and>
   measureAndSendHeight h = CONTENT_HEIGHT_CHANGED (max (min (measuredHeight h) 6400) 800) \<and>
   measureAndSendHeight (uniformHeights 0) = CONTENT_HEIGHT_CHANGED 800 \<and>
   measureAndSendHeight (uniformHeights 500) = CONTENT_HEIGHT_CHANGED 800 \<and>
   measureAndSendHeight (uniformHeights 4000) = CONTENT_HEIGHT_CHANGED 4000 \<and>
   measureAndSendHeight (uniformHeights 9000) = CONTENT_HEIGHT_CHANGED 6400"
proof -
  have uniform: "measuredHeight (uniformHeights n) = n" for n
    by (simp add: measuredHeight_def uniformHeights_def)
  show ?thesis
    unfolding measureAndSendHeight_def contentHeight_def uniform
    by simp
qed

section \<open>Properties of the selection manager\<close>

text \<open>
  C6, as stated, fails: Escape does not return the selection highlight to none. The
  handler sets only \<^verbatim>\<open>hoveredElement\<close>; \<^verbatim>\<open>selectedElementRef\<close> is derived from the record
  the parent pushes (the comment at line 153 says the selection is managed by the
  parent), so after the key press it still refers to the element it referred to before.
\<close>

theorem escape_keeps_selection_highlight_counterexample:
  "selectedElementRef
     (fst (keydown True ''Escape''
        \<lparr>hoveredElement = Some sampleHeading, selectedElementRef = Some sampleHeading\<rparr>))
   = Some sampleHeading"
  by (simp add: keydown_def handleKeyDown_def)

text \<open>
  C6, amended. While select mode is active, pressing Escape posts exactly one message,
  \<^verbatim>\<open>ELEMENT_SELECTED\<close> with the absent-element payload, and sets the hover highlight to
  none. The selection highlight is left as it was by the key press; it is the lookup of
  the record the parent pushes, and the lookup of an absent record is none.
\<close>

theorem escape_clears_hover_and_notifies:
  "keydown True ''Escape'' s = (s\<lparr>hoveredElement := None\<rparr>, [ELEMENT_SELECTED None]) \<and>
   hoveredElement (fst (keydown True ''Escape'' s)) = None \<and>
   selectedElementRef (fst (keydown True ''Escape'' s)) = selectedElementRef s \<and>
   resolve doc None = Returns None"
  by (simp add: keydown_def handleKeyDown_def handleElementSelect_def resolve_def)

section \<open>Properties of the context menu manager\<close>

text \<open>
  C8, as stated, fails in a viewport narrower than 230 pixels (or lower than 140): the
  shifted coordinate \<open>innerWidth - 220 - 10\<close> is negative there, so the menu box starts
  left of the viewport. The event of the claim, at \<open>(viewportWidth - 10,
  viewportHeight - 10)\<close>, in a viewport of 200 by 600 pixels:
\<close>

theorem handleContextMenu_offscreen_counterexample:
  "\<not> menuInsideViewport
       (menuPosition (snd (handleContextMenu (sampleWindow 200 600)
          (sampleEvent (200 - 10) (600 - 10)) closedMenu)))
       200 600"
  by (simp add: handleContextMenu_def sampleWindow_def sampleEvent_def closedMenu_def
      menuInsideViewport_def Let_def)

text \<open>
  C8, amended. For a \<^verbatim>\<open>contextmenu\<close> event whose hit test finds an element, at a point
  with coordinates that are not negative, in a viewport at least 230 pixels wide and
  140 pixels high: the menu position is the event point, with \<open>x\<close> replaced by
  \<open>innerWidth - 220 - 10\<close> when \<open>x + 220\<close> exceeds the width of the viewport and \<open>y\<close>
  replaced by \<open>innerHeight - 130 - 10\<close> when \<open>y + 130\<close> exceeds its height; the menu box
  of 220 by 130 at that position lies inside the viewport; and an event at
  \<open>(innerWidth - 10, innerHeight - 10)\<close> gives the position
  \<open>(innerWidth - 230, innerHeight - 140)\<close>.
\<close>

theorem handleContextMenu_menu_inside_viewport:
  assumes "elementFromPoint win (clientX e) (clientY e) = Some el"
    and "0 \<le> clientX e" and "0 \<le> clientY e"
    and "230 \<le> innerWidth win" and "140 \<le> innerHeight win"
  shows "menuPosition (snd (handleContextMenu win e s)) =
           (if innerWidth win < clientX e + 220 then innerWidth win - 220 - 10 else clientX e,
            if innerHeight win < clientY e + 130 then innerHeight win - 130 - 10 else clientY e) \<and>
         menuInsideViewport (menuPosition (snd (handleContextMenu win e s)))
           (innerWidth win) (innerHeight win) \<and>
         (clientX e = innerWidth win - 10 \<and> clientY e = innerHeight win - 10 \<longrightarrow>
            menuPosition (snd (handleContextMenu win e s)) =
              (innerWidth win - 220 - 10, innerHeight win - 130 - 10))"
proof -
  have pos: "menuPosition (snd (handleContextMenu win e s)) =
      (if innerWidth win < clientX e + 220 then innerWidth win - 220 - 10 else clientX e,
       if innerHeight win < clientY e + 130 then innerHeight win - 130 - 10 else clientY e)"
    using assms(1) by (simp add: handleContextMenu_def Let_def)
  show ?thesis
    unfolding pos using assms(2-5) by (auto simp: menuInsideViewport_def)
qed

theorem handleContextMenu_menu_inside_viewport_witness:
  "elementFromPoint (sampleWindow 1024 800) 1014 790 = Some sampleHeading \<and>
   menuPosition (snd (handleContextMenu (sampleWindow 1024 800) (sampleEvent 1014 790) closedMenu))
     = (794, 660) \<and>
   menuInsideViewport (794, 660) 1024 800"
proof -
  let ?win = "sampleWindow 1024 800" and ?e = "sampleEvent 1014 790"
  have sel: "clientX ?e = 1014" "clientY ?e = 790" "innerWidth ?win = 1024" "innerHeight ?win = 800"
    by (simp_all add: sampleWindow_def sampleEvent_def)
  have hit: "elementFromPoint ?win 1014 790 = Some sampleHeading"
    by (simp add: sampleWindow_def)
  have "elementFromPoint ?win (clientX ?e) (clientY ?e) = Some sampleHeading"
    and "0 \<le> clientX ?e" and "0 \<le> clientY ?e"
    and "230 \<le> innerWidth ?win" and "140 \<le> innerHeight ?win"
    unfolding sel using hit by simp_all
  note inside = handleContextMenu_menu_inside_viewport [OF this, of closedMenu]
  from inside have pos: "menuPosition (snd (handleContextMenu ?win ?e closedMenu)) = (794, 660)"
    unfolding sel by simp
  from inside have "menuInsideViewport (794, 660) 1024 800"
    unfolding pos sel by simp
  with hit pos show ?thesis by simp
qed

text \<open>
  C10, as stated, fails while the menu is open. \<^verbatim>\<open>handleClickOutside\<close> is then
  attached for the same event (line 114), and for a target outside the menu it clears
  the captured element and the highlight rectangle. With the menu open on the heading,
  a \<^verbatim>\<open>contextmenu\<close> event at a point where the hit test finds nothing:
\<close>

theorem contextmenu_open_menu_counterexample:
  "elementFromPoint (sampleWindow 1024 800) 2000 5 = None \<and>
   contextMenuElement openMenu = Some sampleHeading \<and>
   highlightRect openMenu \<noteq> None \<and>
   contextMenuElement
     (snd (contextmenuEvent (sampleWindow 1024 800) False (sampleEvent 2000 5) openMenu)) = None \<and>
   highlightRect
     (snd (contextmenuEvent (sampleWindow 1024 800) False (sampleEvent 2000 5) openMenu)) = None"
  by (simp add: contextmenuEvent_def handleContextMenu_def handleClickOutside_def
      sampleWindow_def sampleEvent_def openMenu_def Let_def)

text \<open>
  C10, amended. On every \<^verbatim>\<open>contextmenu\<close> event \<^verbatim>\<open>preventDefault\<close> is called, whatever the
  hit test finds and whatever the state, and nothing else is done to the event. When
  the hit test finds no element, \<^verbatim>\<open>handleContextMenu\<close> itself leaves the state as it
  was, and after the event the menu position is unchanged and the menu is not open
  unless it was open before. The captured element and the highlight rectangle are
  unchanged too when the menu was closed, or when the target of the event lies inside
  the open menu. When the menu was open and the target lies outside it, the event
  closes the menu and clears the captured element and the highlight rectangle.
\<close>

theorem contextmenuEvent_prevents_default:
  "fst (contextmenuEvent win targetInMenu e s) = e\<lparr>defaultPrevented := True\<rparr> \<and>
   fst (handleContextMenu win e s) = e\<lparr>defaultPrevented := True\<rparr> \<and>
   defaultPrevented (fst (contextmenuEvent win targetInMenu e s)) \<and>
   (elementFromPoint win (clientX e) (clientY e) = None \<longrightarrow>
      snd (handleContextMenu win e s) = s \<and>
      menuPosition (snd (contextmenuEvent win targetInMenu e s)) = menuPosition s \<and>
      (contextMenuOpen (snd (contextmenuEvent win targetInMenu e s)) \<longrightarrow> contextMenuOpen s) \<and>
      snd (contextmenuEvent win targetInMenu e s) =
        (if contextMenuOpen s \<and> \<not> targetInMenu
         then s\<lparr>contextMenuOpen := False, contextMenuElement := None, highlightRect := None\<rparr>
         else s))"
proof -
  have ev: "fst (handleContextMenu win e s) = e\<lparr>defaultPrevented := True\<rparr>"
    by (simp add: handleContextMenu_def Let_def split: option.split)
  have ev': "fst (contextmenuEvent win targetInMenu e s) = e\<lparr>defaultPrevented := True\<rparr>"
    using ev by (simp add: contextmenuEvent_def case_prod_beta)
  have st: "snd (handleContextMenu win e s) = s"
    if "elementFromPoint win (clientX e) (clientY e) = None"
    using that by (simp add: handleContextMenu_def Let_def)
  have st': "snd (contextmenuEvent win targetInMenu e s) =
        (if contextMenuOpen s \<and> \<not> targetInMenu
         then s\<lparr>contextMenuOpen := False, contextMenuElement := None, highlightRect := None\<rparr>
         else s)"
    if "elementFromPoint win (clientX e) (clientY e) = None"
    using st [OF that] by (simp add: contextmenuEvent_def case_prod_beta handleClickOutside_def)
  have pos: "menuPosition (snd (contextmenuEvent win targetInMenu e s)) = menuPosition s"
    if "elementFromPoint win (clientX e) (clientY e) = None"
    unfolding st' [OF that] by simp
  have opn: "contextMenuOpen (snd (contextmenuEvent win targetInMenu e s)) \<longrightarrow> contextMenuOpen s"
    if "elementFromPoint win (clientX e) (clientY e) = None"
    unfolding st' [OF that] by simp
  have "defaultPrevented (fst (contextmenuEvent win targetInMenu e s))"
    unfolding ev' by simp
  with ev ev' st st' pos opn show ?thesis
    by blast
qed

theorem contextmenuEvent_prevents_default_witness:
  "elementFromPoint (sampleWindow 1024 800) 2000 5 = None \<and>
   \<not> contextMenuOpen closedMenu \<and> contextMenuOpen openMenu \<and>
   defaultPrevented
     (fst (contextmenuEvent (sampleWindow 1024 800) False (sampleEvent 2000 5) closedMenu)) \<and>
   snd (contextmenuEvent (sampleWindow 1024 800) False (sampleEvent 2000 5) closedMenu) =
     closedMenu \<and>
   snd (contextmenuEvent (sampleWindow 1024 800) True (sampleEvent 2000 5) openMenu) =
     openMenu \<and>
   snd (contextmenuEvent (sampleWindow 1024 800) False (sampleEvent 2000 5) openMenu) =
     openMenu\<lparr>contextMenuOpen := False, contextMenuElement := None, highlightRect := None\<rparr>"
proof -
  let ?win = "sampleWindow 1024 800" and ?e = "sampleEvent 2000 5"
  have hit: "elementFromPoint ?win (clientX ?e) (clientY ?e) = None"
    by (simp add: sampleWindow_def sampleEvent_def)
  have closed: "\<not> contextMenuOpen closedMenu" and opened: "contextMenuOpen openMenu"
    by (simp_all add: closedMenu_def openMenu_def)
  from contextmenuEvent_prevents_default [of ?win False ?e closedMenu] hit closed
  have c: "defaultPrevented (fst (contextmenuEvent ?win False ?e closedMenu))"
      "snd (contextmenuEvent ?win False ?e closedMenu) = closedMenu"
    by simp_all
  from contextmenuEvent_prevents_default [of ?win True ?e openMenu] hit
  have i: "snd (contextmenuEvent ?win True ?e openMenu) = openMenu"
    by simp
  from contextmenuEvent_prevents_default [of ?win False ?e openMenu] hit opened
  have out: "snd (contextmenuEvent ?win False ?e openMenu) =
      openMenu\<lparr>contextMenuOpen := False, contextMenuElement := None, highlightRect := None\<rparr>"
    by simp
  have "elementFromPoint ?win 2000 5 = None"
    by (simp add: sampleWindow_def)
  with closed opened c i out show ?thesis
    by blast
qed

section \<open>Properties of the bridge and the analyzer overlay\<close>

subsection \<open>One frame of a sweep\<close>

lemma animate_early:
  assumes "clock w - startTime cb < duration cb"
  shows "animate win cb w =
    requestAnimationFrame cb
      (setLaserPosition
         (startPos cb + (endPos cb - startPos cb) *
            (1 - (1 - real (clock w - startTime cb) / real (duration cb)) ^ 3)) w)"
proof -
  from assms have "real (clock w - startTime cb) / real (duration cb) < 1"
    by simp
  then show ?thesis
    by (simp add: animate_def Let_def min_def)
qed

lemma animate_done:
  assumes "0 < duration cb" and "duration cb \<le> clock w - startTime cb"
  shows "animate win cb w =
    afterSweep win (resumes cb) (capturedTargetElementRef cb) (setLaserPosition (endPos cb) w)"
proof -
  from assms have "1 \<le> real (clock w - startTime cb) / real (duration cb)"
    by simp
  then have "min (real (clock w - startTime cb) / real (duration cb)) 1 = 1"
    by (rule min_absorb2)
  then show ?thesis
    by (simp only: animate_def Let_def) simp
qed

lemma trace_setters [simp]:
  "trace (setScanPhase p w) = trace w @ [SetScanPhase p]"
  "trace (setLaserPosition pos w) = trace w @ [SetLaserPosition pos]"
  "trace (setShowTargetFound b w) = trace w @ [SetShowTargetFound b]"
  "trace (setShowContextEnhancing b w) = trace w @ [SetShowContextEnhancing b]"
  "trace (requestAnimationFrame cb w) = trace w"
  "trace (setTimeout tc delay w) = trace w"
  "trace (animateLaser win dir dur k captured w) = trace w"
  "trace (runAnalyzerSequence win captured w) = trace w"
  by (simp_all add: setScanPhase_def setLaserPosition_def setShowTargetFound_def
      setShowContextEnhancing_def requestAnimationFrame_def setTimeout_def animateLaser_def
      runAnalyzerSequence_def)

lemma trace_flushEffects [simp]: "trace (fst (flushEffects win w)) = trace w"
  by (simp add: flushEffects_def sequenceEffect_def Let_def)

lemma trace_renderAnalyzerOverlay [simp]: "trace (renderAnalyzerOverlay win w) = trace w"
  by (simp add: renderAnalyzerOverlay_def case_prod_beta split: outcome.split)

lemma trace_renderContentBridge [simp]: "trace (renderContentBridge win w) = trace w"
  by (simp add: renderContentBridge_def)

lemma trace_handleAnalyzerComplete [simp]:
  "trace (handleAnalyzerComplete win w) =
     trace w @ [OnComplete, PostMessage (ANALYZER_ANIMATION_COMPLETE True)]"
  by (simp add: handleAnalyzerComplete_def Let_def)

lemma trace_handleMessage [simp]: "trace (handleMessage win m w) = trace w"
  by (simp add: handleMessage_def Let_def split: inMessage.split option.split outcome.split)

lemma posted_append [simp]: "posted (xs @ ys) = posted xs @ posted ys"
  by (simp add: posted_def)

lemma posted_Nil [simp]: "posted [] = []"
  by (simp add: posted_def)

lemma posted_Cons [simp]:
  "posted (a # tr) = (case a of PostMessage m \<Rightarrow> [m] | _ \<Rightarrow> []) @ posted tr"
  by (simp add: posted_def)

lemma reportedFailure_afterSweep [simp]:
  "reportedFailure (trace (afterSweep win k captured w)) = reportedFailure (trace w)"
  by (simp add: afterSweep_def reportedFailure_def Let_def split: await.split option.split)

lemma reportedFailure_animate [simp]:
  "reportedFailure (trace (animate win cb w)) = reportedFailure (trace w)"
proof -
  have "reportedFailure (trace (setLaserPosition pos w)) = reportedFailure (trace w)" for pos
    by (simp add: reportedFailure_def)
  then show ?thesis
    by (simp add: animate_def Let_def)
qed

lemma reportedFailure_runCallbacks [simp]:
  "reportedFailure (trace (runCallbacks win cbs w)) = reportedFailure (trace w)"
  by (induction win cbs w rule: runCallbacks.induct) simp_all

lemma reportedFailure_fireTimer [simp]:
  "reportedFailure (trace (fireTimer win tc w)) = reportedFailure (trace w)"
  by (simp add: fireTimer_def reportedFailure_def split: timerCallback.split)

lemma reportedFailure_fireAll [simp]:
  "reportedFailure (trace (fireAll win ts w)) = reportedFailure (trace w)"
  by (induction win ts w rule: fireAll.induct) simp_all

lemma reportedFailure_step [simp]:
  "reportedFailure (trace (step win e w)) = reportedFailure (trace w)"
  by (cases e) (simp_all add: step_def animationFrame_def runTimers_def)

lemma reportedFailure_exec:
  "reportedFailure (trace (exec win es w)) = reportedFailure (trace w)"
  by (induction win es w rule: exec.induct) simp_all


lemma withoutPositions_simps [simp]:
  "withoutPositions [] = []"
  "withoutPositions (xs @ ys) = withoutPositions xs @ withoutPositions ys"
  "withoutPositions (a # tr) = (if isPosition a then [] else [a]) @ withoutPositions tr"
  by (simp_all add: withoutPositions_def)

lemmas render_defs = renderContentBridge_def renderAnalyzerOverlay_def flushEffects_def
  resolveEffect_def sequenceEffect_def runAnalyzerSequence_def animateLaser_def
  requestAnimationFrame_def

lemma resolve_None [simp]: "resolve doc None = Returns None"
  by (simp add: resolve_def)

lemma start_sweeping:
  assumes "idle w" and "trace w = []" and "resolve (elements win) target = Returns None"
  shows "sweeping Sweep1 (handleMessage win (START_ANALYZER_ANIMATION target) w)"
proof (cases target)
  case None
  with assms(1,2) show ?thesis
    by (simp add: handleMessage_def idle_def sweeping_def render_defs Let_def)
next
  case (Some r)
  with assms show ?thesis
    by (simp add: handleMessage_def idle_def sweeping_def render_defs Let_def)
qed

lemma handleAnalyzerComplete_idle:
  assumes "isAnalyzing w" and "targetElementRef w = None"
    and "animationFrames w = []" and "timers w = []" and "\<not> faulted w"
  shows "idle (handleAnalyzerComplete win w)"
  using assms
  by (simp add: handleAnalyzerComplete_def idle_def render_defs Let_def)


lemma sweeping_frame:
  assumes sw: "sweeping k w"
  shows "(dt < 750 \<and> sweeping k (step win (AnimationFrame dt) w)) \<or>
         (case k of
            Sweep1 \<Rightarrow> sweeping Sweep2 (step win (AnimationFrame dt) w)
          | Sweep2 \<Rightarrow> sweeping Sweep3 (step win (AnimationFrame dt) w)
          | Sweep3 \<Rightarrow> sweeping Sweep4 (step win (AnimationFrame dt) w)
          | Sweep4 \<Rightarrow> finished (step win (AnimationFrame dt) w))"
proof -
  from sw obtain cb where cb: "animationFrames w = [cb]" "resumes cb = k" "duration cb = 750"
      "startTime cb \<le> clock w" "capturedTargetElementRef cb = None"
    by (auto simp: sweeping_def)
  from sw have rest: "isAnalyzing w" "targetElementRef w = None" "timers w = []"
      "withoutPositions (trace w) = doneBefore k" "\<not> faulted w"
    by (simp_all add: sweeping_def)
  define w' where "w' = w\<lparr>clock := clock w + dt, animationFrames := []\<rparr>"
  have w': "clock w' = clock w + dt" "animationFrames w' = []" "isAnalyzing w'"
      "targetElementRef w' = None" "timers w' = []" "trace w' = trace w" "\<not> faulted w'"
    using rest by (simp_all add: w'_def)
  have st: "step win (AnimationFrame dt) w = animate win cb w'"
    using rest(5) by (simp add: step_def animationFrame_def cb(1) w'_def)
  show ?thesis
  proof (cases "clock w' - startTime cb < 750")
    case True
    with cb(3) have "clock w' - startTime cb < duration cb" by simp
    from animate_early [OF this, of win]
    have "sweeping k (animate win cb w')"
      using cb w' rest(4)
      by (simp add: sweeping_def requestAnimationFrame_def setLaserPosition_def)
    moreover from True cb(4) w'(1) have "dt < 750" by simp
    ultimately show ?thesis unfolding st by simp
  next
    case False
    with cb(3) have "0 < duration cb" and "duration cb \<le> clock w' - startTime cb"
      by simp_all
    from animate_done [OF this, of win] cb(2,5)
    have an: "animate win cb w' = afterSweep win k None (setLaserPosition (endPos cb) w')"
      by simp
    show ?thesis
    proof (cases k)
      case Sweep1
      with an w' rest(4) show ?thesis
        unfolding st
        by (simp add: afterSweep_def sweeping_def animateLaser_def requestAnimationFrame_def
            setLaserPosition_def setScanPhase_def)
    next
      case Sweep2
      with an w' rest(4) show ?thesis
        unfolding st
        by (simp add: afterSweep_def sweeping_def animateLaser_def requestAnimationFrame_def
            setLaserPosition_def setScanPhase_def)
    next
      case Sweep3
      with an w' rest(4) show ?thesis
        unfolding st
        by (simp add: afterSweep_def sweeping_def animateLaser_def requestAnimationFrame_def
            setLaserPosition_def setScanPhase_def)
    next
      case Sweep4
      let ?v = "setScanPhase Complete (setScanPhase TargetFound (setLaserPosition (endPos cb) w'))"
      have "isAnalyzing ?v" "targetElementRef ?v = None" "animationFrames ?v = []" "timers ?v = []"
        "\<not> faulted ?v"
        using w' by (simp_all add: setLaserPosition_def setScanPhase_def)
      then have "idle (handleAnalyzerComplete win ?v)"
        by (rule handleAnalyzerComplete_idle)
      moreover have "withoutPositions (trace (handleAnalyzerComplete win ?v)) = unresolvedRun"
        using w'(6) rest(4) Sweep4 by (simp add: unresolvedRun_def)
      ultimately have "finished (handleAnalyzerComplete win ?v)"
        by (simp add: finished_def)
      with an Sweep4 show ?thesis
        unfolding st by (simp add: afterSweep_def Let_def)
    qed
  qed
qed

lemma sweeping_timers:
  assumes "sweeping k w"
  shows "sweeping k (step win (Timers dt) w)"
  using assms by (auto simp: step_def sweeping_def runTimers_def)

lemma finished_step:
  assumes "finished w" and "\<not> isMessage e"
  shows "finished (step win e w)"
  using assms
  by (cases e) (simp_all add: step_def finished_def idle_def animationFrame_def runTimers_def)


lemma sweeping_frame_long:
  assumes "sweeping k w" and "750 \<le> dt"
  shows "case k of
            Sweep1 \<Rightarrow> sweeping Sweep2 (step win (AnimationFrame dt) w)
          | Sweep2 \<Rightarrow> sweeping Sweep3 (step win (AnimationFrame dt) w)
          | Sweep3 \<Rightarrow> sweeping Sweep4 (step win (AnimationFrame dt) w)
          | Sweep4 \<Rightarrow> finished (step win (AnimationFrame dt) w)"
  using sweeping_frame [OF assms(1), of dt win] assms(2) by simp

lemma inRun_step:
  assumes "(\<exists>k. sweeping k w) \<or> finished w" and "\<not> isMessage e"
  shows "(\<exists>k. sweeping k (step win e w)) \<or> finished (step win e w)"
proof (cases "finished w")
  case True
  with assms(2) show ?thesis by (simp add: finished_step)
next
  case False
  with assms(1) obtain k where k: "sweeping k w" by blast
  show ?thesis
  proof (cases e)
    case (Message m)
    with assms(2) show ?thesis by simp
  next
    case (AnimationFrame dt)
    from sweeping_frame [OF k, of dt win] show ?thesis
      unfolding AnimationFrame by (cases k) auto
  next
    case (Timers dt)
    from sweeping_timers [OF k, of win dt] show ?thesis
      unfolding Timers by blast
  qed
qed

lemma inRun_exec:
  assumes "(\<exists>k. sweeping k w) \<or> finished w" and "list_all (\<lambda>e. \<not> isMessage e) sched"
  shows "(\<exists>k. sweeping k (exec win sched w)) \<or> finished (exec win sched w)"
  using assms
proof (induction sched arbitrary: w)
  case Nil
  then show ?case by simp
next
  case (Cons e sched)
  from Cons.prems have "(\<exists>k. sweeping k (step win e w)) \<or> finished (step win e w)"
    by (simp add: inRun_step)
  with Cons.prems(2) have
    "(\<exists>k. sweeping k (exec win sched (step win e w))) \<or> finished (exec win sched (step win e w))"
    by (intro Cons.IH) simp_all
  then show ?case by simp
qed

lemma inRun_trace:
  assumes "(\<exists>k. sweeping k w) \<or> finished w"
  shows "withoutPositions (trace w) \<in>
     {[], [SetScanPhase Up], [SetScanPhase Up, SetScanPhase Down2],
      [SetScanPhase Up, SetScanPhase Down2, SetScanPhase Up2], unresolvedRun}"
proof (cases "finished w")
  case True
  then show ?thesis by (simp add: finished_def)
next
  case False
  with assms obtain k where "sweeping k w" by blast
  then have "withoutPositions (trace w) = doneBefore k" by (simp add: sweeping_def)
  then show ?thesis by (cases k) simp_all
qed

lemma exec_append: "exec win (es @ es') w = exec win es' (exec win es w)"
  by (induction win es w rule: exec.induct) simp_all

lemma four_frames_finish:
  assumes "(\<exists>k. sweeping k w) \<or> finished w"
    and "750 \<le> a" and "750 \<le> b" and "750 \<le> c" and "750 \<le> d"
  shows "finished (exec win [AnimationFrame a, AnimationFrame b, AnimationFrame c, AnimationFrame d] w)"
proof -
  have s1: "sweeping Sweep2 (step win (AnimationFrame dt) v)" if "sweeping Sweep1 v" "750 \<le> dt" for v dt
    using sweeping_frame_long [OF that, of win] by simp
  have s2: "sweeping Sweep3 (step win (AnimationFrame dt) v)" if "sweeping Sweep2 v" "750 \<le> dt" for v dt
    using sweeping_frame_long [OF that, of win] by simp
  have s3: "sweeping Sweep4 (step win (AnimationFrame dt) v)" if "sweeping Sweep3 v" "750 \<le> dt" for v dt
    using sweeping_frame_long [OF that, of win] by simp
  have s4: "finished (step win (AnimationFrame dt) v)" if "sweeping Sweep4 v" "750 \<le> dt" for v dt
    using sweeping_frame_long [OF that, of win] by simp
  have f: "finished (step win (AnimationFrame dt) v)" if "finished v" for v dt
    using finished_step [of v "AnimationFrame dt" win] that by simp
  have ex: "exec win [AnimationFrame a, AnimationFrame b, AnimationFrame c, AnimationFrame d] w =
      step win (AnimationFrame d) (step win (AnimationFrame c)
        (step win (AnimationFrame b) (step win (AnimationFrame a) w)))"
    by simp
  from assms(1) consider "sweeping Sweep1 w" | "sweeping Sweep2 w" | "sweeping Sweep3 w"
    | "sweeping Sweep4 w" | "finished w"
    by (metis await.exhaust)
  then have "finished (step win (AnimationFrame d) (step win (AnimationFrame c)
        (step win (AnimationFrame b) (step win (AnimationFrame a) w))))"
  proof cases
    case 1
    from s4 [OF s3 [OF s2 [OF s1 [OF 1 assms(2)] assms(3)] assms(4)] assms(5)] show ?thesis .
  next
    case 2
    from f [OF s4 [OF s3 [OF s2 [OF 2 assms(2)] assms(3)] assms(4)]] show ?thesis .
  next
    case 3
    from f [OF f [OF s4 [OF s3 [OF 3 assms(2)] assms(3)]]] show ?thesis .
  next
    case 4
    from f [OF f [OF f [OF s4 [OF 4 assms(2)]]]] show ?thesis .
  next
    case 5
    from f [OF f [OF f [OF f [OF 5]]]] show ?thesis .
  qed
  then show ?thesis
    unfolding ex .
qed

subsection \<open>The sample runs\<close>

lemmas model_defs = handleMessage_def renderContentBridge_def renderAnalyzerOverlay_def
  flushEffects_def resolveEffect_def sequenceEffect_def
  runAnalyzerSequence_def animateLaser_def requestAnimationFrame_def setTimeout_def
  setScanPhase_def setLaserPosition_def setShowTargetFound_def setShowContextEnhancing_def
  handleAnalyzerComplete_def afterSweep_def animate_def fireTimer_def animationFrame_def runTimers_def
  step_def

lemma sampleWindow_sel [simp]:
  "elements (sampleWindow w h) = sampleDocument"
  "innerHeight (sampleWindow w h) = h"
  "innerWidth (sampleWindow w h) = w"
  by (simp_all add: sampleWindow_def)

lemma resolve_sampleHeading:
  "resolve sampleDocument (Some (elementData sampleHeading)) = Returns (Some sampleHeading)"
  by (simp add: sampleDocument_def sampleHeading_def sampleItem_def elementData_def
      resolve_def matchingElement_def querySelectorAll_def selects_def
      sameFields_def toLowerCase_def lowerChar_def isNameStart_def isNameChar_def)

lemma resolve_goneRecord: "resolve sampleDocument (Some goneRecord) = Returns None"
  by (simp add: sampleDocument_def sampleHeading_def sampleItem_def elementData_def
      goneRecord_def resolve_def matchingElement_def querySelectorAll_def selects_def
      sameFields_def toLowerCase_def lowerChar_def isNameStart_def isNameChar_def)

lemma posted_withoutPositions: "posted (withoutPositions tr) = posted tr"
proof (induction tr)
  case Nil
  show ?case by simp
next
  case (Cons a tr)
  then show ?case by (cases a) simp_all
qed

lemma completions_withoutPositions: "completions (withoutPositions tr) = completions tr"
proof (induction tr)
  case Nil
  show ?case by simp
next
  case (Cons a tr)
  then show ?case by (cases a) (simp_all add: completions_def)
qed

lemma phases_withoutPositions: "phases (withoutPositions tr) = phases tr"
proof (induction tr)
  case Nil
  show ?case by simp
next
  case (Cons a tr)
  then show ?case by (cases a) (simp_all add: phases_def)
qed

lemma sample_after_sweeps:
  "exec (sampleWindow 1024 800) (sampleStart (Some (elementData sampleHeading))) mounted =
   \<lparr>clock = 3000, fresh = 4, isSelectMode = False, selectedElement = None,
    isAnalyzing = False, analyzerTarget = None,
    handleAnalyzerCompleteRef = 3, scanPhase = TargetFound, laserPosition = 0,
    showTargetFound = True, showContextEnhancing = False,
    targetElementRef = None, resolveDeps = None,
    sequenceDeps = (False, None, 3), animationFrames = [], timers = [(4000, AfterTargetFound)],
    trace =
      [SetLaserPosition 800, SetScanPhase Up, SetLaserPosition 800, SetScanPhase Up,
       SetLaserPosition 0, SetScanPhase Down2, SetLaserPosition 0, SetScanPhase Down2,
       SetLaserPosition 800, SetScanPhase Up2, SetLaserPosition 800, SetScanPhase Up2,
       SetLaserPosition 0, SetScanPhase TargetFound, SetScanPhase Complete,
       OnComplete, PostMessage (ANALYZER_ANIMATION_COMPLETE True),
       SetLaserPosition 0, SetScanPhase TargetFound, SetShowTargetFound True],
    faulted = False\<rparr>"
  by (simp add: sampleStart_def model_defs mounted_def resolve_sampleHeading Let_def)

lemma sample_resolved_run:
  "withoutPositions
     (trace (exec (sampleWindow 1024 800)
        (sampleStart (Some (elementData sampleHeading)) @ [Timers 1000, Timers 1500]) mounted)) =
   [SetScanPhase Up, SetScanPhase Up, SetScanPhase Down2, SetScanPhase Down2,
    SetScanPhase Up2, SetScanPhase Up2,
    SetScanPhase TargetFound, SetScanPhase Complete, OnComplete,
    PostMessage (ANALYZER_ANIMATION_COMPLETE True),
    SetScanPhase TargetFound, SetShowTargetFound True,
    SetScanPhase ContextEnhancing, SetShowTargetFound False, SetShowContextEnhancing True,
    SetShowContextEnhancing False, SetScanPhase Complete, OnComplete,
    PostMessage (ANALYZER_ANIMATION_COMPLETE True)]"
  unfolding exec_append sample_after_sweeps
  by (simp add: model_defs Let_def)

lemma sample_unresolved_run:
  "withoutPositions (trace (exec (sampleWindow 1024 800) (sampleStart None) mounted)) =
   unresolvedRun"
  by (simp add: sampleStart_def unresolvedRun_def model_defs mounted_def Let_def)

subsection \<open>The completion message\<close>

text \<open>
  C9. \<^verbatim>\<open>handleAnalyzerComplete\<close> posts \<^verbatim>\<open>ANALYZER_ANIMATION_COMPLETE\<close> with \<^verbatim>\<open>success\<close>
  true, whatever the state; and in every execution from the mounted state, whatever
  the messages, frames and timer events, whether or not a target resolved, every
  \<^verbatim>\<open>ANALYZER_ANIMATION_COMPLETE\<close> message posted carries \<^verbatim>\<open>success\<close> true.
\<close>

theorem completion_reports_success:
  "posted (trace (handleAnalyzerComplete win w)) =
     posted (trace w) @ [ANALYZER_ANIMATION_COMPLETE True] \<and>
   (\<forall>b. ANALYZER_ANIMATION_COMPLETE b \<in> set (posted (trace (exec win es mounted))) \<longrightarrow> b)"
proof -
  have "\<not> reportedFailure (trace mounted)"
    by (simp add: reportedFailure_def mounted_def)
  then have "\<not> reportedFailure (trace (exec win es mounted))"
    by (simp add: reportedFailure_exec)
  then have "ANALYZER_ANIMATION_COMPLETE b \<in> set (posted (trace (exec win es mounted))) \<longrightarrow> b" for b
    unfolding reportedFailure_def by (cases b) simp_all
  then have "\<forall>b. ANALYZER_ANIMATION_COMPLETE b \<in> set (posted (trace (exec win es mounted))) \<longrightarrow> b"
    by blast
  moreover have "posted (trace (handleAnalyzerComplete win w)) =
     posted (trace w) @ [ANALYZER_ANIMATION_COMPLETE True]"
    by simp
  ultimately show ?thesis
    by blast
qed

theorem completion_reports_success_witness:
  "ANALYZER_ANIMATION_COMPLETE True \<in>
     set (posted (trace (exec (sampleWindow 1024 800) (sampleStart None) mounted))) \<and>
   ANALYZER_ANIMATION_COMPLETE False \<notin>
     set (posted (trace (exec (sampleWindow 1024 800) (sampleStart None) mounted)))"
proof -
  have "posted (trace (exec (sampleWindow 1024 800) (sampleStart None) mounted)) =
      posted unresolvedRun"
    using posted_withoutPositions
      [of "trace (exec (sampleWindow 1024 800) (sampleStart None) mounted)"]
    by (simp only: sample_unresolved_run)
  then have yes: "ANALYZER_ANIMATION_COMPLETE True \<in>
      set (posted (trace (exec (sampleWindow 1024 800) (sampleStart None) mounted)))"
    by (simp add: unresolvedRun_def)
  from completion_reports_success [of "sampleWindow 1024 800" mounted "sampleStart None"]
  have "ANALYZER_ANIMATION_COMPLETE False \<notin>
      set (posted (trace (exec (sampleWindow 1024 800) (sampleStart None) mounted)))"
    by blast
  with yes show ?thesis by blast
qed

subsection \<open>A run whose target does not resolve\<close>

text \<open>
  Line 67 sets the phase to \<open>target-found\<close> before line 70 tests the target, so a run
  without a target sets \<open>target-found\<close> and then, in the same step, \<open>complete\<close>.
\<close>

lemma unresolved_run_sets_target_found:
  "phases (trace (exec (sampleWindow 1024 800) (sampleStart None) mounted)) =
     [SetScanPhase Up, SetScanPhase Down2, SetScanPhase Up2,
      SetScanPhase TargetFound, SetScanPhase Complete]"
proof -
  have "phases (trace (exec (sampleWindow 1024 800) (sampleStart None) mounted)) =
      phases unresolvedRun"
    using phases_withoutPositions
      [of "trace (exec (sampleWindow 1024 800) (sampleStart None) mounted)"]
    by (simp only: sample_unresolved_run)
  then show ?thesis
    by (simp add: unresolvedRun_def phases_def)
qed

text \<open>
  A run that nothing disturbs. Take a state in which no run is in progress, a start
  message whose target does not resolve to a live element (a missing target included),
  and after it any animation frames and timer events, but no message from the parent.
  Then what the run has done, position updates
  left out, is always one of: nothing; \<open>up\<close>; \<open>up, down2\<close>; \<open>up, down2, up2\<close>; or the
  whole of \<open>unresolvedRun\<close>, which is \<open>up, down2, up2, target-found, complete\<close>, then
  one call of the completion callback and its one message. So the phase
  \<open>context-enhancing\<close> is never set, neither callout flag is ever set, \<open>target-found\<close>
  is set only together with \<open>complete\<close>, and the callback is called at most once, after
  \<open>complete\<close>. And the run does end: after four more frames, each at least 750 ms after
  the event before it, the whole of \<open>unresolvedRun\<close> has happened and no run is in
  progress.
\<close>

lemma undisturbed_unresolved_run:
  assumes "idle w" and "trace w = []"
    and "resolve (elements win) target = Returns None"
    and "list_all (\<lambda>e. \<not> isMessage e) sched"
  shows "withoutPositions
           (trace (exec win (Message (START_ANALYZER_ANIMATION target) # sched) w)) \<in>
         {[], [SetScanPhase Up], [SetScanPhase Up, SetScanPhase Down2],
          [SetScanPhase Up, SetScanPhase Down2, SetScanPhase Up2], unresolvedRun} \<and>
         (\<forall>a b c d. 750 \<le> a \<and> 750 \<le> b \<and> 750 \<le> c \<and> 750 \<le> d \<longrightarrow>
            withoutPositions
              (trace (exec win
                 (Message (START_ANALYZER_ANIMATION target) # sched @
                    [AnimationFrame a, AnimationFrame b, AnimationFrame c, AnimationFrame d]) w))
              = unresolvedRun \<and>
            idle (exec win
                 (Message (START_ANALYZER_ANIMATION target) # sched @
                    [AnimationFrame a, AnimationFrame b, AnimationFrame c, AnimationFrame d]) w))"
proof -
  let ?w1 = "step win (Message (START_ANALYZER_ANIMATION target)) w"
  have "\<not> faulted w"
    using assms(1) by (simp add: idle_def)
  then have "sweeping Sweep1 ?w1"
    using start_sweeping [OF assms(1,2,3)] by (simp add: step_def)
  then have "(\<exists>k. sweeping k ?w1) \<or> finished ?w1" by blast
  from inRun_exec [OF this assms(4), of win]
  have inv: "(\<exists>k. sweeping k (exec win sched ?w1)) \<or> finished (exec win sched ?w1)" .
  have first: "withoutPositions
           (trace (exec win (Message (START_ANALYZER_ANIMATION target) # sched) w)) \<in>
         {[], [SetScanPhase Up], [SetScanPhase Up, SetScanPhase Down2],
          [SetScanPhase Up, SetScanPhase Down2, SetScanPhase Up2], unresolvedRun}"
    using inRun_trace [OF inv] by simp
  have second: "finished (exec win
                 (Message (START_ANALYZER_ANIMATION target) # sched @
                    [AnimationFrame a, AnimationFrame b, AnimationFrame c, AnimationFrame d]) w)"
    if "750 \<le> a" "750 \<le> b" "750 \<le> c" "750 \<le> d" for a b c d
    using four_frames_finish [OF inv that, of win]
    by (simp add: exec_append)
  from first second show ?thesis
    by (simp add: finished_def del: exec.simps)
qed

lemma undisturbed_unresolved_run_sample:
  "idle mounted \<and> trace mounted = [] \<and>
   resolve (elements (sampleWindow 1024 800)) (Some goneRecord) = Returns None \<and>
   list_all (\<lambda>e. \<not> isMessage e) [AnimationFrame 16, Timers 5] \<and>
   withoutPositions
     (trace (exec (sampleWindow 1024 800)
        [Message (START_ANALYZER_ANIMATION (Some goneRecord)), AnimationFrame 16, Timers 5,
         AnimationFrame 750, AnimationFrame 750, AnimationFrame 750, AnimationFrame 750]
        mounted)) = unresolvedRun"
proof -
  have h1: "idle mounted" and h2: "trace mounted = []"
    by (simp_all add: idle_def mounted_def)
  have h3: "resolve (elements (sampleWindow 1024 800)) (Some goneRecord) = Returns None"
    by (simp add: resolve_goneRecord)
  have h4: "list_all (\<lambda>e. \<not> isMessage e) [AnimationFrame 16, Timers 5]"
    by simp
  have le: "(750::nat) \<le> 750 \<and> (750::nat) \<le> 750 \<and> (750::nat) \<le> 750 \<and> (750::nat) \<le> 750"
    by simp
  from undisturbed_unresolved_run [OF h1 h2 h3 h4]
  have "\<forall>a b c d. 750 \<le> a \<and> 750 \<le> b \<and> 750 \<le> c \<and> 750 \<le> d \<longrightarrow>
      withoutPositions
        (trace (exec (sampleWindow 1024 800)
           (Message (START_ANALYZER_ANIMATION (Some goneRecord)) # [AnimationFrame 16, Timers 5] @
              [AnimationFrame a, AnimationFrame b, AnimationFrame c, AnimationFrame d]) mounted))
        = unresolvedRun \<and>
      idle (exec (sampleWindow 1024 800)
           (Message (START_ANALYZER_ANIMATION (Some goneRecord)) # [AnimationFrame 16, Timers 5] @
              [AnimationFrame a, AnimationFrame b, AnimationFrame c, AnimationFrame d]) mounted)"
    by (rule conjunct2)
  with le have "withoutPositions
        (trace (exec (sampleWindow 1024 800)
           (Message (START_ANALYZER_ANIMATION (Some goneRecord)) # [AnimationFrame 16, Timers 5] @
              [AnimationFrame 750, AnimationFrame 750, AnimationFrame 750, AnimationFrame 750])
           mounted)) = unresolvedRun"
    by blast
  then have "withoutPositions
     (trace (exec (sampleWindow 1024 800)
        [Message (START_ANALYZER_ANIMATION (Some goneRecord)), AnimationFrame 16, Timers 5,
         AnimationFrame 750, AnimationFrame 750, AnimationFrame 750, AnimationFrame 750]
        mounted)) = unresolvedRun"
    by (simp only: append.simps)
  with h1 h2 h3 h4 show ?thesis by blast
qed

lemma sample_disturbed_run:
  "withoutPositions (trace (exec (sampleWindow 1024 800) sampleDisturbed mounted)) =
   [SetScanPhase Up, SetScanPhase Down2, SetScanPhase Up, SetScanPhase Up2,
    SetScanPhase Down2, SetScanPhase TargetFound, SetScanPhase Complete,
    OnComplete, PostMessage (ANALYZER_ANIMATION_COMPLETE True),
    SetScanPhase Up2, SetScanPhase TargetFound, SetScanPhase Complete,
    OnComplete, PostMessage (ANALYZER_ANIMATION_COMPLETE True)]"
  by (simp add: sampleDisturbed_def model_defs mounted_def Let_def)

text \<open>
  C5, on the code. The claim does not hold of the code: the completion callback of a
  run without a target can fire twice. \<^verbatim>\<open>onComplete\<close> is among the dependencies of the
  effect of lines 48 to 91, the bridge makes a new \<^verbatim>\<open>handleAnalyzerComplete\<close> each time
  it renders, and the effect has no cleanup. In the sample run the start message
  carries no target, and 400 ms later the parent switches select mode on: the bridge
  renders, the effect runs again and starts a second sequence beside the first. The
  first sequence sets \<open>target-found\<close> and \<open>complete\<close> and calls the callback at
  3000 ms; the second goes on, though \<^verbatim>\<open>isActive\<close> is withdrawn, and calls it again at
  3750 ms. Two \<^verbatim>\<open>ANALYZER_ANIMATION_COMPLETE\<close> messages are posted for one start
  message. Neither callout flag is set, and \<open>context-enhancing\<close> is never set.
\<close>

theorem unresolved_run_completes_twice:
  "resolve (elements (sampleWindow 1024 800)) None = Returns None \<and>
   withoutPositions (trace (exec (sampleWindow 1024 800) sampleDisturbed mounted)) =
     [SetScanPhase Up, SetScanPhase Down2, SetScanPhase Up, SetScanPhase Up2,
      SetScanPhase Down2, SetScanPhase TargetFound, SetScanPhase Complete,
      OnComplete, PostMessage (ANALYZER_ANIMATION_COMPLETE True),
      SetScanPhase Up2, SetScanPhase TargetFound, SetScanPhase Complete,
      OnComplete, PostMessage (ANALYZER_ANIMATION_COMPLETE True)] \<and>
   completions (trace (exec (sampleWindow 1024 800) sampleDisturbed mounted)) = 2 \<and>
   posted (trace (exec (sampleWindow 1024 800) sampleDisturbed mounted)) =
     [ANALYZER_ANIMATION_COMPLETE True, ANALYZER_ANIMATION_COMPLETE True]"
proof -
  let ?tr = "trace (exec (sampleWindow 1024 800) sampleDisturbed mounted)"
  have "completions ?tr = completions (withoutPositions ?tr)"
    by (simp only: completions_withoutPositions)
  then have c: "completions ?tr = 2"
    by (simp only: sample_disturbed_run) (simp add: completions_def)
  have "posted ?tr = posted (withoutPositions ?tr)"
    by (simp only: posted_withoutPositions)
  then have p: "posted ?tr = [ANALYZER_ANIMATION_COMPLETE True, ANALYZER_ANIMATION_COMPLETE True]"
    by (simp only: sample_disturbed_run) simp
  have r: "resolve (elements (sampleWindow 1024 800)) None = Returns None"
    by (simp add: resolve_def)
  from r sample_disturbed_run c p show ?thesis
    by blast
qed

subsection \<open>A run whose target resolves\<close>

text \<open>
  Whatever the document and the record: from a state in which no run is in progress, a
  start message whose target resolves to a live element queues two sequences, and the
  first has captured no target.
\<close>

lemma start_live_target_two_sequences:
  assumes "idle w" and "resolve (elements win) (Some r) = Returns (Some el)"
  shows "map capturedTargetElementRef
           (animationFrames (handleMessage win (START_ANALYZER_ANIMATION (Some r)) w)) =
         [None, Some el]"
  using assms
  by (simp add: handleMessage_def idle_def render_defs Let_def)

text \<open>
  C3, on the code. The claim does not hold of the code. When the start message
  arrives, the effect of lines 29 to 45 finds the live element and gives it to
  \<^verbatim>\<open>setTargetElementRef\<close>, and the effect of lines 48 to 91 starts a sequence that has
  captured the old value of \<^verbatim>\<open>targetElementRef\<close>, which is \<^verbatim>\<open>null\<close>. The state change
  makes the overlay render again, \<^verbatim>\<open>targetElementRef\<close> is among the dependencies of the
  second effect, and the effect has no cleanup: it starts a second sequence while the
  first goes on. In the sample run the target resolves, every phase of the sweeps is set
  twice, the first sequence calls the completion callback at 3000 ms, right after its
  fourth sweep and before any callout, and the second sequence calls it again at
  5500 ms: two completion messages for one start message.
\<close>

theorem resolved_target_completes_twice:
  "resolve (elements (sampleWindow 1024 800)) (Some (elementData sampleHeading)) =
     Returns (Some sampleHeading) \<and>
   withoutPositions
     (trace (exec (sampleWindow 1024 800)
        (sampleStart (Some (elementData sampleHeading)) @ [Timers 1000, Timers 1500]) mounted)) =
     [SetScanPhase Up, SetScanPhase Up, SetScanPhase Down2, SetScanPhase Down2,
      SetScanPhase Up2, SetScanPhase Up2,
      SetScanPhase TargetFound, SetScanPhase Complete, OnComplete,
      PostMessage (ANALYZER_ANIMATION_COMPLETE True),
      SetScanPhase TargetFound, SetShowTargetFound True,
      SetScanPhase ContextEnhancing, SetShowTargetFound False, SetShowContextEnhancing True,
      SetShowContextEnhancing False, SetScanPhase Complete, OnComplete,
      PostMessage (ANALYZER_ANIMATION_COMPLETE True)] \<and>
   completions
     (trace (exec (sampleWindow 1024 800)
        (sampleStart (Some (elementData sampleHeading)) @ [Timers 1000, Timers 1500]) mounted)) = 2 \<and>
   clock (exec (sampleWindow 1024 800)
        (sampleStart (Some (elementData sampleHeading)) @ [Timers 1000, Timers 1500]) mounted) = 5500"
proof -
  let ?tr = "trace (exec (sampleWindow 1024 800)
        (sampleStart (Some (elementData sampleHeading)) @ [Timers 1000, Timers 1500]) mounted)"
  have "completions ?tr = completions (withoutPositions ?tr)"
    by (simp only: completions_withoutPositions)
  then have "completions ?tr = 2"
    by (simp only: sample_resolved_run) (simp add: completions_def)
  moreover have "clock (exec (sampleWindow 1024 800)
        (sampleStart (Some (elementData sampleHeading)) @ [Timers 1000, Timers 1500]) mounted) = 5500"
    unfolding exec_append sample_after_sweeps
    by (simp add: model_defs Let_def)
  ultimately show ?thesis
    using sample_resolved_run by (simp only: sampleWindow_sel resolve_sampleHeading)
qed

text \<open>
  C4, on the code. The claim does not hold of the code: nothing is cancelled when
  \<^verbatim>\<open>isActive\<close> is withdrawn, since the effect of lines 48 to 91 returns no cleanup
  function and neither \<^verbatim>\<open>animate\<close> nor the timer callbacks test the flag. In the
  sample run the completion of the first sequence clears \<^verbatim>\<open>isAnalyzing\<close> at 3000 ms,
  while the timer of the second sequence is pending. The timer fires all the same, and
  so does the one it sets: the phase goes on to \<open>context-enhancing\<close> and \<open>complete\<close>, and
  the completion callback is called and posts its message.
\<close>

theorem withdrawn_run_continues:
  "\<not> isAnalyzing (exec (sampleWindow 1024 800)
        (sampleStart (Some (elementData sampleHeading))) mounted) \<and>
   clock (exec (sampleWindow 1024 800)
        (sampleStart (Some (elementData sampleHeading))) mounted) = 3000 \<and>
   timers (exec (sampleWindow 1024 800)
        (sampleStart (Some (elementData sampleHeading))) mounted) = [(4000, AfterTargetFound)] \<and>
   withoutPositions
     (trace (exec (sampleWindow 1024 800)
        (sampleStart (Some (elementData sampleHeading)) @ [Timers 1000, Timers 1500]) mounted)) =
   withoutPositions
     (trace (exec (sampleWindow 1024 800)
        (sampleStart (Some (elementData sampleHeading))) mounted)) @
     [SetScanPhase ContextEnhancing, SetShowTargetFound False, SetShowContextEnhancing True,
      SetShowContextEnhancing False, SetScanPhase Complete, OnComplete,
      PostMessage (ANALYZER_ANIMATION_COMPLETE True)]"
  unfolding sample_resolved_run
  unfolding sample_after_sweeps
  by simp

text \<open>
  Animation frames are not cancelled either. A render of the bridge while the overlay is
  active makes a new \<^verbatim>\<open>onComplete\<close>, which is a dependency of the effect, so a message
  that changes select mode starts one more sequence, 400 ms behind the others in the
  sample. When the first sequence completes at 3000 ms and clears \<^verbatim>\<open>isAnalyzing\<close>, the
  late sequence has just queued the \<^verbatim>\<open>animate\<close> callback of its fourth sweep. The next
  frame runs it: the position is updated and the phase is set.
\<close>

lemma sample_overlap_state:
  "exec (sampleWindow 1024 800) sampleOverlap mounted =
   \<lparr>clock = 3000, fresh = 5, isSelectMode = True, selectedElement = None,
    isAnalyzing = False, analyzerTarget = None,
    handleAnalyzerCompleteRef = 4, scanPhase = Up2, laserPosition = 800,
    showTargetFound = True, showContextEnhancing = False,
    targetElementRef = None, resolveDeps = None,
    sequenceDeps = (False, None, 4),
    animationFrames =
      [\<lparr>startTime = 3000, startPos = 800, endPos = 0, duration = 750,
        resumes = Sweep4, capturedTargetElementRef = Some sampleHeading\<rparr>],
    timers = [(4000, AfterTargetFound)],
    trace =
      [SetLaserPosition (97024 / 135), SetLaserPosition (97024 / 135),
       SetLaserPosition 800, SetScanPhase Up, SetLaserPosition 800,
       SetScanPhase Up, SetLaserPosition (91616 / 135), SetLaserPosition 0,
       SetScanPhase Down2, SetLaserPosition 0, SetScanPhase Down2,
       SetLaserPosition 800, SetScanPhase Up, SetLaserPosition 800,
       SetScanPhase Up2, SetLaserPosition 800, SetScanPhase Up2,
       SetLaserPosition 0, SetScanPhase Down2, SetLaserPosition 0,
       SetScanPhase TargetFound, SetScanPhase Complete, OnComplete,
       PostMessage (ANALYZER_ANIMATION_COMPLETE True), SetLaserPosition 0,
       SetScanPhase TargetFound, SetShowTargetFound True,
       SetLaserPosition 800, SetScanPhase Up2],
    faulted = False\<rparr>"
  by (simp add: sampleOverlap_def model_defs mounted_def resolve_sampleHeading Let_def
      power_divide)

lemma withdrawn_run_frames_continue:
  "\<not> isAnalyzing (exec (sampleWindow 1024 800) sampleOverlap mounted) \<and>
   map resumes (animationFrames (exec (sampleWindow 1024 800) sampleOverlap mounted)) = [Sweep4] \<and>
   trace (exec (sampleWindow 1024 800) (sampleOverlap @ [AnimationFrame 750]) mounted) =
     trace (exec (sampleWindow 1024 800) sampleOverlap mounted) @
       [SetLaserPosition 0, SetScanPhase TargetFound, SetShowTargetFound True]"
  unfolding exec_append sample_overlap_state
  by (simp add: model_defs Let_def)

end
